theory Spec2Isabelle
  imports Main "HOL-Library.AList" "HOL-Library.Multiset"
begin

section \<open>The coin game server: data model\<close>

text \<open>
  The repository holds several variants of the server-side game module. Two of them keep
  the game state in a process-wide JavaScript object \<^verbatim>\<open>database\<close>:
  \<^item> \<^verbatim>\<open>src/server/game.js\<close>, the in-memory module, whose \<^verbatim>\<open>move(direction)\<close> has
    no name parameter (definitions with the suffix \<open>_game\<close> below);
  \<^item> \<^verbatim>\<open>src/unnamed/part_001\<close>, which keeps the same object and mirrors every write into
    a Redis store, checks names against the Redis set \<^verbatim>\<open>usednames\<close> and has
    \<^verbatim>\<open>move(direction, name)\<close> (the definitions without suffix).

  A JavaScript object with string keys is an insertion-ordered table with unique keys: it
  is modelled as an association list, written with \<^const>\<open>AList.update\<close> (an existing key
  keeps its place, a new key goes to the end) and \<^const>\<open>AList.delete\<close>, and read with
  \<^const>\<open>map_of\<close>. The property names that every object inherits from
  \<^verbatim>\<open>Object.prototype\<close> are modelled where the code looks a client's input up in an
  object literal, the direction table of \<^verbatim>\<open>move\<close>. (Outside the model: a player whose
  name is such an inherited name or a canonical array index such as \<^verbatim>\<open>"7"\<close>, for which
  \<^verbatim>\<open>database.scores\<close> is not the plain insertion-ordered table.)

  A number of the code is an integer or \<^verbatim>\<open>NaN\<close>. A score is such a number:
  \<^verbatim>\<open>database.scores[name] += value\<close> on a missing entry stores
  \<^verbatim>\<open>undefined + value\<close>, which is \<^verbatim>\<open>NaN\<close>. So is a coordinate:
  \<^verbatim>\<open>+x + delta[0]\<close> is \<^verbatim>\<open>NaN\<close> when \<^verbatim>\<open>delta[0]\<close> is \<^verbatim>\<open>undefined\<close>.
\<close>

datatype jsnum = Num int | NaN

text \<open>
  A position is stored by the code as the string \<^verbatim>\<open>"<x>,<y>"\<close> and read back with
  \<^verbatim>\<open>split(',')\<close> and unary plus; the same text is the key of a coin. The model keeps the
  pair of numbers that this string encodes (\<^verbatim>\<open>"NaN,NaN"\<close> is the pair \<open>(NaN, NaN)\<close>).
\<close>

type_synonym point = "jsnum \<times> jsnum"

fun jsplus :: "jsnum \<Rightarrow> jsnum \<Rightarrow> jsnum" where
  "jsplus (Num a) (Num b) = Num (a + b)"
| "jsplus _ _ = NaN"

fun jsadd :: "jsnum option \<Rightarrow> int \<Rightarrow> jsnum" where
  "jsadd (Some (Num a)) v = Num (a + v)"
| "jsadd (Some NaN) v = NaN"
| "jsadd None v = NaN"

fun jsless :: "jsnum \<Rightarrow> jsnum \<Rightarrow> bool" where
  "jsless (Num a) (Num b) = (a < b)"
| "jsless _ _ = False"

text \<open>
  The object \<^verbatim>\<open>database\<close>: its properties \<^verbatim>\<open>scores\<close>, \<^verbatim>\<open>usednames\<close> and
  \<^verbatim>\<open>coins\<close>, and its properties \<^verbatim>\<open>player:<name>\<close>, collected in \<open>players\<close> under
  the bare name.
\<close>

record database =
  scores :: "(string \<times> jsnum) list"
  usednames :: "string set"
  coins :: "(point \<times> int) list"
  players :: "(string \<times> point) list"

definition WIDTH :: nat where
  "WIDTH = 64"

definition HEIGHT :: nat where
  "HEIGHT = 64"

definition MAX_PLAYER_NAME_LENGTH :: nat where
  "MAX_PLAYER_NAME_LENGTH = 32"

definition NUM_COINS :: nat where
  "NUM_COINS = 100"

datatype error = TypeError

subsection \<open>The helpers of \<^verbatim>\<open>gameutil\<close>\<close>

text \<open>
  Modelled from the spec: \<^verbatim>\<open>clamp\<close> of the module \<^verbatim>\<open>./gameutil\<close>, which both game
  modules import and which is not among the source files. The spec describes it as
  ``bounds clamping'', used to ``clamp each axis independently into [0, WIDTH-1]/[0,
  HEIGHT-1] (movement into a wall is a no-op on that axis, not an error)''. The arguments
  are in the order of the call \<^verbatim>\<open>clamp(+x + delta[0], 0, WIDTH - 1)\<close>. On \<^verbatim>\<open>NaN\<close>
  the spec is silent; every comparison with \<^verbatim>\<open>NaN\<close> is false and \<^verbatim>\<open>Math.min\<close> and
  \<^verbatim>\<open>Math.max\<close> return \<^verbatim>\<open>NaN\<close> for it, so a clamp written in either of the usual
  ways returns \<^verbatim>\<open>NaN\<close>, and so does the model.
\<close>

fun clamp :: "jsnum \<Rightarrow> int \<Rightarrow> int \<Rightarrow> jsnum" where
  "clamp (Num x) low high = Num (if x < low then low else if high < x then high else x)"
| "clamp NaN low high = NaN"

text \<open>
  Modelled from the spec: \<^verbatim>\<open>permutation(n)\<close> (\<^verbatim>\<open>permutationArray(n)\<close> in
  \<^verbatim>\<open>game.js\<close>) of \<^verbatim>\<open>./gameutil\<close> ``generates a random permutation of all
  WIDTH*HEIGHT cell indices''. The array it returns is a parameter \<open>perm\<close> of every
  operation that may call it, and \<open>is_permutation n perm\<close> is its contract.
\<close>

definition is_permutation :: "nat \<Rightarrow> nat list \<Rightarrow> bool" where
  "is_permutation n perm = (mset perm = mset [0..<n])"

text \<open>
  Modelled from the spec: \<^verbatim>\<open>randomPoint(WIDTH, HEIGHT)\<close> of \<^verbatim>\<open>./gameutil\<close> ``assigns
  a uniformly random starting position'', ``position random in 64\<times>64''. The point it
  returns is a parameter of \<open>addPlayer\<close>, and \<open>on_board\<close> is its contract.
\<close>

fun on_board :: "point \<Rightarrow> bool" where
  "on_board (Num x, Num y) = (0 \<le> x \<and> x \<le> int WIDTH - 1 \<and> 0 \<le> y \<and> y \<le> int HEIGHT - 1)"
| "on_board _ = False"

subsection \<open>Coin placement\<close>

text \<open>
  \<^verbatim>\<open>const coinValue = (i < 50) ? 1 : (i < 75) ? 2 : (i < 95) ? 5 : 10;\<close>
  \<^verbatim>\<open>const index = `${Math.floor(position / WIDTH)},${Math.floor(position % WIDTH)}`;\<close>
\<close>

definition coinValue :: "nat \<Rightarrow> int" where
  "coinValue i = (if i < 50 then 1 else if i < 75 then 2 else if i < 95 then 5 else 10)"

definition index :: "nat \<Rightarrow> point" where
  "index position = (Num (int (position div WIDTH)), Num (int (position mod WIDTH)))"

text \<open>
  \<^verbatim>\<open>placeCoins\<close> of \<^verbatim>\<open>game.js\<close>: the first 100 entries of the permutation, each written
  into \<^verbatim>\<open>database.coins\<close> under its index with the value of its rank. The function does
  not clear the object first.
\<close>

definition placeCoins_game :: "nat list \<Rightarrow> database \<Rightarrow> database" where
  "placeCoins_game perm db =
     db\<lparr>coins := fold (\<lambda>(i, position). AList.update (index position) (coinValue i))
                     (enumerate 0 (take 100 perm)) (coins db)\<rparr>"

section \<open>The in-memory module \<^verbatim>\<open>src/server/game.js\<close>\<close>

definition addPlayer_game :: "string \<Rightarrow> point \<Rightarrow> database \<Rightarrow> bool \<times> database" where
  "addPlayer_game name pt db =
     (if name \<in> usednames db then (False, db)
      else (True, db\<lparr>usednames := insert name (usednames db),
                      players := AList.update name pt (players db),
                      scores := AList.update name (Num 0) (scores db)\<rparr>))"

text \<open>
  \<^verbatim>\<open>const delta = { U: [0, -1], R: [1, 0], D: [0, 1], L: [-1, 0] }[direction];\<close>
  followed by \<^verbatim>\<open>if (delta)\<close>. The direction is what the client sent, read as a property
  key. For one of the four own keys the lookup gives the pair of the table. For a property
  name that the object literal inherits from \<^verbatim>\<open>Object.prototype\<close> it gives a function (or
  the prototype itself, for \<^verbatim>\<open>__proto__\<close>): a truthy value whose entries \<^verbatim>\<open>[0]\<close> and
  \<^verbatim>\<open>[1]\<close> are \<^verbatim>\<open>undefined\<close>, so that the body of \<^verbatim>\<open>move\<close> runs and both sums
  \<^verbatim>\<open>+x + delta[0]\<close>, \<^verbatim>\<open>+y + delta[1]\<close> are \<^verbatim>\<open>NaN\<close>; the model writes that delta as
  \<open>(NaN, NaN)\<close>. For any other key the lookup gives \<^verbatim>\<open>undefined\<close> and the body is
  skipped.
\<close>

definition inherited_names :: "string list" where
  "inherited_names =
     [''constructor'', ''__defineGetter__'', ''__defineSetter__'', ''hasOwnProperty'',
      ''__lookupGetter__'', ''__lookupSetter__'', ''isPrototypeOf'', ''propertyIsEnumerable'',
      ''toString'', ''valueOf'', ''__proto__'', ''toLocaleString'']"

definition delta_of :: "string \<Rightarrow> point option" where
  "delta_of direction =
     (if direction = ''U'' then Some (Num 0, Num (-1))
      else if direction = ''R'' then Some (Num 1, Num 0)
      else if direction = ''D'' then Some (Num 0, Num 1)
      else if direction = ''L'' then Some (Num (-1), Num 0)
      else if direction \<in> set inherited_names then Some (NaN, NaN)
      else None)"

text \<open>
  The body of \<^verbatim>\<open>move\<close> up to the assignment of the new position (lines 77 to 84 of
  \<^verbatim>\<open>game.js\<close>, lines 108 to 115 of \<^verbatim>\<open>part_001\<close>) for the player \<open>name\<close> at \<open>(x, y)\<close>:
  the candidate cell, the coin found there (\<^verbatim>\<open>if (value)\<close> is false for a missing coin
  and for the number 0), the credit and the removal, and the new position.
\<close>

definition candidate :: "point \<Rightarrow> point \<Rightarrow> point" where
  "candidate pos delta =
     (clamp (jsplus (fst pos) (fst delta)) 0 (int WIDTH - 1),
      clamp (jsplus (snd pos) (snd delta)) 0 (int HEIGHT - 1))"

definition collect :: "string \<Rightarrow> point \<Rightarrow> database \<Rightarrow> database" where
  "collect name cell db =
     (case map_of (coins db) cell of
        None \<Rightarrow> db
      | Some v \<Rightarrow>
          if v \<noteq> 0
          then db\<lparr>scores := AList.update name (jsadd (map_of (scores db) name) v) (scores db),
                  coins := AList.delete cell (coins db)\<rparr>
          else db)"

definition relocate :: "string \<Rightarrow> point \<Rightarrow> database \<Rightarrow> database" where
  "relocate name cell db = db\<lparr>players := AList.update name cell (players db)\<rparr>"

text \<open>
  \<^verbatim>\<open>move\<close> of \<^verbatim>\<open>game.js\<close>. The key is the constant \<^verbatim>\<open>'player:alice'\<close>, and the score
  credited is that of \<^verbatim>\<open>key.substring(7)\<close>. Reading \<^verbatim>\<open>database[key].split\<close> on a
  missing entry throws a \<^verbatim>\<open>TypeError\<close>; the result pairs what the call threw, if
  anything, with the state it left behind.
\<close>

definition move_game :: "string \<Rightarrow> nat list \<Rightarrow> database \<Rightarrow> error option \<times> database" where
  "move_game direction perm db =
     (case delta_of direction of
        None \<Rightarrow> (None, db)
      | Some delta \<Rightarrow>
          (case map_of (players db) ''alice'' of
             None \<Rightarrow> (Some TypeError, db)
           | Some pos \<Rightarrow>
               (let cell = candidate pos delta;
                    db1 = relocate ''alice'' cell (collect ''alice'' cell db)
                in (None, if coins db1 = [] then placeCoins_game perm db1 else db1))))"

text \<open>
  The module's start: \<^verbatim>\<open>placeCoins(); exports.addPlayer('alice'); exports.addPlayer('bob');\<close>
  on the empty database.
\<close>

definition empty_database :: database where
  "empty_database = \<lparr>scores = [], usednames = {}, coins = [], players = []\<rparr>"

definition startup_game :: "nat list \<Rightarrow> point \<Rightarrow> point \<Rightarrow> database" where
  "startup_game perm pa pb =
     snd (addPlayer_game ''bob'' pb
       (snd (addPlayer_game ''alice'' pa (placeCoins_game perm empty_database))))"

subsection \<open>The snapshot\<close>

text \<open>
  \<^verbatim>\<open>Array.prototype.sort\<close> is part of the JavaScript engine. ECMAScript fixes its result
  only when the comparison function is consistent; otherwise the order is
  implementation-defined. The model is a binary insertion sort, the method of the V8 engine
  (Node.js 11 and later) on short arrays: each element in turn is placed, by bisection, in
  the prefix already sorted, left of an element \<open>e\<close> only if \<open>comparefn pivot e < 0\<close>.
\<close>

function binary_search :: "('a \<Rightarrow> 'a \<Rightarrow> int) \<Rightarrow> 'a \<Rightarrow> 'a list \<Rightarrow> nat \<Rightarrow> nat \<Rightarrow> nat" where
  "binary_search comparefn pivot xs left right =
     (if left < right
      then (if comparefn pivot (xs ! (left + (right - left) div 2)) < 0
            then binary_search comparefn pivot xs left (left + (right - left) div 2)
            else binary_search comparefn pivot xs (left + (right - left) div 2 + 1) right)
      else left)"
  by pat_completeness auto
termination
proof (relation "measure (\<lambda>(comparefn, pivot, xs, left, right). right - left)")
  fix comparefn :: "'a \<Rightarrow> 'a \<Rightarrow> int" and pivot :: 'a and xs :: "'a list" and left right :: nat
  assume "left < right"
  then show "((comparefn, pivot, xs, left, left + (right - left) div 2),
      comparefn, pivot, xs, left, right)
    \<in> measure (\<lambda>(comparefn, pivot, xs, left, right). right - left)"
    by simp
  assume "left < right"
  then show "((comparefn, pivot, xs, left + (right - left) div 2 + 1, right),
      comparefn, pivot, xs, left, right)
    \<in> measure (\<lambda>(comparefn, pivot, xs, left, right). right - left)"
    by simp
qed simp

declare binary_search.simps [simp del]

fun insert_each :: "('a \<Rightarrow> 'a \<Rightarrow> int) \<Rightarrow> 'a list \<Rightarrow> 'a list \<Rightarrow> 'a list" where
  "insert_each comparefn placed [] = placed"
| "insert_each comparefn placed (pivot # rest) =
     (let k = binary_search comparefn pivot placed 0 (length placed)
      in insert_each comparefn (take k placed @ pivot # drop k placed) rest)"

definition js_sort :: "('a \<Rightarrow> 'a \<Rightarrow> int) \<Rightarrow> 'a list \<Rightarrow> 'a list" where
  "js_sort comparefn xs = insert_each comparefn [] xs"

text \<open>
  The comparison function of \<^verbatim>\<open>state\<close>, \<^verbatim>\<open>([, v1], [, v2]) => v1 < v2\<close>, returns a
  boolean, which \<^verbatim>\<open>sort\<close> converts to the number 1 or 0.
\<close>

definition score_compare :: "string \<times> jsnum \<Rightarrow> string \<times> jsnum \<Rightarrow> int" where
  "score_compare a b = (if jsless (snd a) (snd b) then 1 else 0)"

text \<open>
  \<^verbatim>\<open>state\<close>: the entries \<^verbatim>\<open>player:<name>\<close> of the database under the bare name, the
  entries of \<^verbatim>\<open>database.scores\<close> after \<^verbatim>\<open>sort\<close>, and the coins.
\<close>

record snapshot =
  snap_positions :: "(string \<times> point) list"
  snap_scores :: "(string \<times> jsnum) list"
  snap_coins :: "(point \<times> int) list"

definition state_game :: "database \<Rightarrow> snapshot" where
  "state_game db =
     \<lparr>snap_positions = players db,
      snap_scores = js_sort score_compare (scores db),
      snap_coins = coins db\<rparr>"

section \<open>The module with the Redis mirror, \<^verbatim>\<open>src/unnamed/part_001\<close>\<close>

text \<open>
  The Redis keys the module writes: the set \<^verbatim>\<open>usednames\<close>, the strings
  \<^verbatim>\<open>player:<name>\<close>, the sorted set \<^verbatim>\<open>scores\<close> and the hash \<^verbatim>\<open>coins\<close>. Only
  \<^verbatim>\<open>usednames\<close> is ever read back (by \<^verbatim>\<open>sismember\<close> in \<^verbatim>\<open>addPlayer\<close>). The
  commands of one client run in the order they were issued, and each operation of the
  module is modelled as one uninterrupted step; the expiry of a \<^verbatim>\<open>player:<name>\<close> key
  after \<^verbatim>\<open>PLAYER_EXPIRE_TIME\<close> seconds is not modelled.
\<close>

record redis_store =
  r_usednames :: "string set"
  r_players :: "string \<rightharpoonup> point"
  r_scores :: "string \<rightharpoonup> int"
  r_coins :: "point \<rightharpoonup> int"

record server =
  mem :: database
  redis :: redis_store

text \<open>What \<^verbatim>\<open>addPlayer\<close> emits to the requesting socket.\<close>

datatype reply = Badname string | Welcome

text \<open>
  \<^verbatim>\<open>addPlayer\<close>: the guard on the length of the name, then \<^verbatim>\<open>sismember\<close> on the Redis
  set, then the writes to the database and to Redis. \<^verbatim>\<open>randomPoint\<close> is called twice,
  once for the database (\<open>p1\<close>) and once for Redis (\<open>p2\<close>).
\<close>

definition addPlayer :: "string \<Rightarrow> point \<Rightarrow> point \<Rightarrow> server \<Rightarrow> reply \<times> server" where
  "addPlayer name p1 p2 s =
     (if length name \<noteq> 0 \<or> length name \<le> MAX_PLAYER_NAME_LENGTH
      then (if name \<in> r_usednames (redis s) then (Badname name, s)
            else (Welcome,
                  s\<lparr>mem := (mem s)\<lparr>usednames := insert name (usednames (mem s)),
                                    players := AList.update name p1 (players (mem s)),
                                    scores := AList.update name (Num 0) (scores (mem s))\<rparr>,
                    redis := (redis s)\<lparr>r_usednames := insert name (r_usednames (redis s)),
                                        r_players := (r_players (redis s))(name \<mapsto> p2),
                                        r_scores := (r_scores (redis s))(name \<mapsto> 0)\<rparr>\<rparr>))
      else (Badname name, s))"

text \<open>
  \<^verbatim>\<open>placeCoins\<close>: \<^verbatim>\<open>redis.del('coins')\<close>, then for each of the first \<^verbatim>\<open>NUM_COINS\<close>
  entries of the permutation \<^verbatim>\<open>redis.hset('coins', index, coinValue)\<close> and
  \<^verbatim>\<open>database.coins[index] = coinValue\<close>. The object \<^verbatim>\<open>database.coins\<close> is not cleared.
\<close>

definition placeCoins :: "nat list \<Rightarrow> server \<Rightarrow> server" where
  "placeCoins perm s =
     s\<lparr>mem := (mem s)\<lparr>coins := fold (\<lambda>(i, position). AList.update (index position) (coinValue i))
                                   (enumerate 0 (take NUM_COINS perm)) (coins (mem s))\<rparr>,
       redis := (redis s)\<lparr>r_coins := fold (\<lambda>(i, position) h. h(index position \<mapsto> coinValue i))
                                        (enumerate 0 (take NUM_COINS perm)) Map.empty\<rparr>\<rparr>"

text \<open>
  \<^verbatim>\<open>move(direction, name)\<close>: as in \<^verbatim>\<open>game.js\<close>, with the key \<^verbatim>\<open>`player:${name}`\<close> and
  the score \<^verbatim>\<open>database.scores[name]\<close>.
\<close>

definition move :: "string \<Rightarrow> string \<Rightarrow> nat list \<Rightarrow> server \<Rightarrow> error option \<times> server" where
  "move direction name perm s =
     (case delta_of direction of
        None \<Rightarrow> (None, s)
      | Some delta \<Rightarrow>
          (case map_of (players (mem s)) name of
             None \<Rightarrow> (Some TypeError, s)
           | Some pos \<Rightarrow>
               (let cell = candidate pos delta;
                    s1 = s\<lparr>mem := relocate name cell (collect name cell (mem s))\<rparr>
                in (None, if coins (mem s1) = [] then placeCoins perm s1 else s1))))"

definition state :: "server \<Rightarrow> snapshot" where
  "state s =
     \<lparr>snap_positions = players (mem s),
      snap_scores = js_sort score_compare (scores (mem s)),
      snap_coins = coins (mem s)\<rparr>"

text \<open>The module's start: \<^verbatim>\<open>placeCoins()\<close> on the empty database, Redis as it is found.\<close>

definition startup :: "nat list \<Rightarrow> redis_store \<Rightarrow> server" where
  "startup perm r0 = placeCoins perm \<lparr>mem = empty_database, redis = r0\<rparr>"

section \<open>Reachable states\<close>

text \<open>
  The states the modules pass through: the start, then any sequence of registrations (with
  points as \<^verbatim>\<open>randomPoint\<close> gives them) and moves (with permutations as
  \<^verbatim>\<open>permutation\<close> gives them).
\<close>

inductive reachable :: "server \<Rightarrow> bool" where
  start: "is_permutation (WIDTH * HEIGHT) perm \<Longrightarrow> reachable (startup perm r0)"
| registered: "reachable s \<Longrightarrow> on_board p1 \<Longrightarrow> on_board p2 \<Longrightarrow>
     reachable (snd (addPlayer name p1 p2 s))"
| moved: "reachable s \<Longrightarrow> is_permutation (WIDTH * HEIGHT) perm \<Longrightarrow>
     reachable (snd (move direction name perm s))"

inductive reachable_game :: "database \<Rightarrow> bool" where
  start_game: "is_permutation (WIDTH * HEIGHT) perm \<Longrightarrow> on_board pa \<Longrightarrow> on_board pb \<Longrightarrow>
     reachable_game (startup_game perm pa pb)"
| registered_game: "reachable_game db \<Longrightarrow> on_board pt \<Longrightarrow>
     reachable_game (snd (addPlayer_game name pt db))"
| moved_game: "reachable_game db \<Longrightarrow> is_permutation (WIDTH * HEIGHT) perm \<Longrightarrow>
     reachable_game (snd (move_game direction perm db))"

section \<open>Auxiliary definitions\<close>

text \<open>
  The coins that one call of \<^verbatim>\<open>placeCoins\<close> writes, in the order of the writes: entry
  \<open>i\<close> of the permutation, for \<open>i\<close> below \<open>n\<close>, at its index with the value of rank \<open>i\<close>.
\<close>

definition batch :: "nat \<Rightarrow> nat list \<Rightarrow> (point \<times> int) list" where
  "batch n perm = map (\<lambda>(i, position). (index position, coinValue i)) (enumerate 0 (take n perm))"

text \<open>The value multiset of a full batch: 50 coins of 1, 25 of 2, 20 of 5 and 5 of 10.\<close>

definition batch_values :: "int multiset" where
  "batch_values = replicate_mset 50 1 + replicate_mset 25 2 + replicate_mset 20 5 + replicate_mset 5 10"

text \<open>
  The invariant of the database: no cell holds two coins, every coin is worth 1, 2, 5 or
  10, every player stands on the board or at \<open>(NaN, NaN)\<close>, the players and the scores are
  those of the used names, every score is a number, and the coin field is not empty.
\<close>

definition settled :: "database \<Rightarrow> bool" where
  "settled db =
     (distinct (map fst (coins db)) \<and>
      set (map snd (coins db)) \<subseteq> {1, 2, 5, 10} \<and>
      list_all (\<lambda>(n, p). on_board p \<or> p = (NaN, NaN)) (players db) \<and>
      fst ` set (players db) = usednames db \<and>
      fst ` set (scores db) = usednames db \<and>
      NaN \<notin> snd ` set (scores db))"

definition invariant :: "database \<Rightarrow> bool" where
  "invariant db = (settled db \<and> coins db \<noteq> [])"

subsection \<open>Example states\<close>

text \<open>
  Late in a round: two coins are left of the batch, worth 6 of its 250 points, and the
  players hold the other 244. Alice registered first and stands right of the coin at
  \<open>(Num 10, Num 10)\<close>; Bob stands in the far corner of the board.
\<close>

definition example_database :: database where
  "example_database =
     \<lparr>scores = [(''alice'', Num 100), (''bob'', Num 144)],
      usednames = {''alice'', ''bob''},
      coins = [((Num 0, Num 0), 1), ((Num 10, Num 10), 5)],
      players = [(''alice'', (Num 11, Num 10)), (''bob'', (Num 63, Num 63))]\<rparr>"

definition example_redis :: redis_store where
  "example_redis =
     \<lparr>r_usednames = {''alice'', ''bob''},
      r_players = [''alice'' \<mapsto> (Num 40, Num 2), ''bob'' \<mapsto> (Num 7, Num 8)],
      r_scores = [''alice'' \<mapsto> 0, ''bob'' \<mapsto> 0],
      r_coins = [(Num 0, Num 0) \<mapsto> 1, (Num 10, Num 10) \<mapsto> 5]\<rparr>"

definition example_server :: server where
  "example_server = \<lparr>mem = example_database, redis = example_redis\<rparr>"

text \<open>The same round one coin later: the coin at \<open>(Num 10, Num 10)\<close> is the last one.\<close>

definition last_coin_server :: server where
  "last_coin_server =
     \<lparr>mem = \<lparr>scores = [(''alice'', Num 100), (''bob'', Num 145)],
             usednames = {''alice'', ''bob''},
             coins = [((Num 10, Num 10), 5)],
             players = [(''alice'', (Num 11, Num 10)), (''bob'', (Num 0, Num 0))]\<rparr>,
      redis = example_redis\<rparr>"

text \<open>
  The in-memory module in the same round. Its \<^verbatim>\<open>move\<close> has credited every coin to
  Alice. Bob stands right of the coin at \<open>(Num 10, Num 10)\<close>, Alice elsewhere.
\<close>

definition bob_next_to_coin :: database where
  "bob_next_to_coin =
     \<lparr>scores = [(''alice'', Num 244), (''bob'', Num 0)],
      usednames = {''alice'', ''bob''},
      coins = [((Num 0, Num 0), 1), ((Num 10, Num 10), 5)],
      players = [(''alice'', (Num 20, Num 20)), (''bob'', (Num 11, Num 10))]\<rparr>"

text \<open>The Redis-backed module after its start on an empty Redis and one registration.\<close>

definition empty_redis :: redis_store where
  "empty_redis = \<lparr>r_usednames = {}, r_players = Map.empty, r_scores = Map.empty, r_coins = Map.empty\<rparr>"

definition one_player_server :: server where
  "one_player_server = snd (addPlayer ''alice'' (Num 3, Num 4) (Num 5, Num 6) (startup [0..<4096] empty_redis))"

section \<open>Association lists and the coin batch\<close>

lemma update_fresh: "k \<notin> fst ` set al \<Longrightarrow> AList.update k v al = al @ [(k, v)]"
  by (induction al) auto

lemma fold_update_fresh:
  "distinct (map fst kvs) \<Longrightarrow> fst ` set kvs \<inter> fst ` set al = {} \<Longrightarrow>
   fold (\<lambda>(k, v). AList.update k v) kvs al = al @ kvs"
proof (induction kvs arbitrary: al)
  case Nil
  then show ?case by simp
next
  case (Cons kv kvs)
  obtain k v where kv: "kv = (k, v)" by (cases kv)
  from Cons.prems kv have fresh: "k \<notin> fst ` set al" by auto
  have "fst ` set kvs \<inter> fst ` set (al @ [(k, v)]) = {}"
    using Cons.prems kv by auto
  with Cons.IH [of "al @ [(k, v)]"] Cons.prems
  have "fold (\<lambda>(k, v). AList.update k v) kvs (al @ [(k, v)]) = (al @ [(k, v)]) @ kvs"
    by simp
  with fresh show ?case by (simp add: kv update_fresh)
qed

lemma fold_batch:
  "fold (\<lambda>(i, position). AList.update (index position) (coinValue i)) (enumerate 0 (take n perm)) al
   = fold (\<lambda>(k, v). AList.update k v) (batch n perm) al"
  by (simp add: batch_def fold_map comp_def case_prod_unfold)

lemma inj_index: "index p = index q \<Longrightarrow> p = q"
proof -
  assume "index p = index q"
  then have "p div WIDTH = q div WIDTH" "p mod WIDTH = q mod WIDTH"
    by (simp_all add: index_def)
  then show "p = q" by (metis div_mult_mod_eq)
qed

lemma map_snd_enumerate': "map (\<lambda>x. f (snd x)) (enumerate k xs) = map f xs"
  by (induction xs arbitrary: k) auto

lemma map_fst_enumerate': "map (\<lambda>x. f (fst x)) (enumerate k xs) = map f [k..<k + length xs]"
  by (induction xs arbitrary: k) (auto simp: upt_rec)

lemma map_fst_batch: "map fst (batch n perm) = map index (take n perm)"
  by (simp add: batch_def case_prod_unfold comp_def map_snd_enumerate')

lemma map_snd_batch: "map snd (batch n perm) = map coinValue [0..<min n (length perm)]"
  by (simp add: batch_def case_prod_unfold comp_def map_fst_enumerate' min.commute)

lemma permutationD:
  "is_permutation n perm \<Longrightarrow> distinct perm \<and> length perm = n \<and> set perm = {0..<n}"
  unfolding is_permutation_def
  by (metis distinct_upt mset_eq_imp_distinct_iff mset_eq_length length_upt diff_zero mset_eq_setD set_upt)

lemma coinValue_mset:
  "mset (map coinValue [0..<100]) =
     replicate_mset 50 1 + replicate_mset 25 2 + replicate_mset 20 5 + replicate_mset 5 10"
proof -
  have split: "[0..<100] = [0..<50] @ [50..<75] @ [75..<95] @ [95..<100]"
    using upt_add_eq_append [of 0 50 50] upt_add_eq_append [of 50 75 25]
      upt_add_eq_append [of 75 95 5] by simp
  have a: "map coinValue [0..<50] = replicate 50 1"
    by (rule replicate_eqI) (auto simp: coinValue_def)
  have b: "map coinValue [50..<75] = replicate 25 2"
    by (rule replicate_eqI) (auto simp: coinValue_def)
  have c: "map coinValue [75..<95] = replicate 20 5"
    by (rule replicate_eqI) (auto simp: coinValue_def)
  have d: "map coinValue [95..<100] = replicate 5 10"
    by (rule replicate_eqI) (auto simp: coinValue_def)
  show ?thesis
    unfolding split map_append a b c d by (simp add: ac_simps flip: mset_replicate)
qed

lemma batch_nth:
  "n \<le> length perm \<Longrightarrow> batch n perm = map (\<lambda>i. (index (perm ! i), coinValue i)) [0..<n]"
  by (rule nth_equalityI) (simp_all add: batch_def nth_enumerate_eq)

lemma distinct_batch: "distinct perm \<Longrightarrow> distinct (map fst (batch n perm))"
  by (simp add: map_fst_batch distinct_map distinct_take inj_on_def inj_index)

lemma fold_update_empty:
  "distinct perm \<Longrightarrow>
   fold (\<lambda>(i, position). AList.update (index position) (coinValue i)) (enumerate 0 (take n perm)) []
   = batch n perm"
  using fold_update_fresh [of "batch n perm" "[]"]
  by (simp add: fold_batch distinct_batch)

lemma fold_update_nonempty:
  "xs \<noteq> [] \<Longrightarrow> fold (\<lambda>(i, position). AList.update (index position) (coinValue i)) xs al \<noteq> []"
  by (induction xs arbitrary: al rule: rev_induct) (auto simp: case_prod_unfold)

lemma fold_update_distinct:
  "distinct (map fst al) \<Longrightarrow>
   distinct (map fst (fold (\<lambda>(i, position). AList.update (index position) (coinValue i)) xs al))"
  by (induction xs arbitrary: al) (auto simp: case_prod_unfold distinct_update)

lemma set_update_subset: "set (AList.update k v al) \<subseteq> insert (k, v) (set al)"
  by (induction al) auto

lemma enumerate_take_nonempty:
  assumes "is_permutation (WIDTH * HEIGHT) perm"
  shows "enumerate 0 (take NUM_COINS perm) \<noteq> []"
proof -
  from assms have "length perm = 4096"
    by (auto dest!: permutationD simp: WIDTH_def HEIGHT_def)
  then have "0 < length (enumerate 0 (take NUM_COINS perm))"
    by (simp add: NUM_COINS_def)
  then show ?thesis
    unfolding length_greater_0_conv .
qed

section \<open>A call of \<^verbatim>\<open>placeCoins\<close>\<close>

lemma coins_placeCoins_game:
  "coins (placeCoins_game perm db) =
     fold (\<lambda>(i, position). AList.update (index position) (coinValue i))
       (enumerate 0 (take NUM_COINS perm)) (coins db)"
  by (simp add: placeCoins_game_def NUM_COINS_def)

lemma mem_placeCoins: "mem (placeCoins perm s) = placeCoins_game perm (mem s)"
  by (simp add: placeCoins_def placeCoins_game_def NUM_COINS_def)

lemma full_batch:
  assumes "is_permutation (WIDTH * HEIGHT) perm"
  shows "length (batch NUM_COINS perm) = 100"
    and "mset (map snd (batch NUM_COINS perm)) = batch_values"
    and "batch NUM_COINS perm = map (\<lambda>i. (index (perm ! i), coinValue i)) [0..<100]"
    and "distinct (map fst (batch NUM_COINS perm))"
proof -
  from assms have len: "length perm = 4096" and dist: "distinct perm"
    by (auto dest!: permutationD simp: WIDTH_def HEIGHT_def)
  show "length (batch NUM_COINS perm) = 100"
    using len by (simp add: batch_def NUM_COINS_def)
  have "map snd (batch NUM_COINS perm) = map coinValue [0..<100]"
    using len by (simp add: map_snd_batch NUM_COINS_def)
  then show "mset (map snd (batch NUM_COINS perm)) = batch_values"
    by (simp only: coinValue_mset batch_values_def)
  show "batch NUM_COINS perm = map (\<lambda>i. (index (perm ! i), coinValue i)) [0..<100]"
    using len batch_nth [of NUM_COINS perm] by (simp add: NUM_COINS_def)
  show "distinct (map fst (batch NUM_COINS perm))"
    using dist by (rule distinct_batch)
qed

lemma placeCoins_game_empty:
  assumes "is_permutation (WIDTH * HEIGHT) perm" and "coins db = []"
  shows "coins (placeCoins_game perm db) = batch NUM_COINS perm"
  using assms by (auto dest!: permutationD simp: coins_placeCoins_game fold_update_empty)

section \<open>The steps of a move\<close>

lemma on_board_candidate: "on_board (candidate (Num x, Num y) (Num dx, Num dy))"
  by (simp add: candidate_def WIDTH_def HEIGHT_def)

lemma candidate_nan_delta: "candidate pos (NaN, NaN) = (NaN, NaN)"
  by (cases pos; cases "fst pos"; cases "snd pos") (simp_all add: candidate_def)

lemma candidate_nan_position: "candidate (NaN, NaN) delta = (NaN, NaN)"
  by (simp add: candidate_def)

lemma delta_of_cases:
  "delta_of direction = Some delta \<Longrightarrow>
   (direction = ''U'' \<and> delta = (Num 0, Num (-1))) \<or> (direction = ''R'' \<and> delta = (Num 1, Num 0)) \<or>
   (direction = ''D'' \<and> delta = (Num 0, Num 1)) \<or> (direction = ''L'' \<and> delta = (Num (-1), Num 0)) \<or>
   (direction \<in> set inherited_names \<and> delta = (NaN, NaN))"
  by (auto simp: delta_of_def split: if_splits)

lemma candidate_placed:
  assumes "delta_of direction = Some delta" and "on_board pos \<or> pos = (NaN, NaN)"
  shows "on_board (candidate pos delta) \<or> candidate pos delta = (NaN, NaN)"
proof (cases "pos = (NaN, NaN)")
  case True
  then show ?thesis by (simp add: candidate_nan_position)
next
  case False
  with assms(2) have "on_board pos" by simp
  then obtain x y where pos: "pos = (Num x, Num y)"
    by (cases pos; cases "fst pos"; cases "snd pos") auto
  from delta_of_cases [OF assms(1)] show ?thesis
    by (auto simp: pos on_board_candidate candidate_nan_delta)
qed



lemma collect_other [simp]:
  "players (collect name cell db) = players db"
  "usednames (collect name cell db) = usednames db"
  by (simp_all add: collect_def split: option.splits)

lemma relocate_simps [simp]:
  "players (relocate name cell db) = AList.update name cell (players db)"
  "coins (relocate name cell db) = coins db"
  "scores (relocate name cell db) = scores db"
  "usednames (relocate name cell db) = usednames db"
  by (simp_all add: relocate_def)

lemma coins_collect_subset: "set (coins (collect name cell db)) \<subseteq> set (coins db)"
  by (auto simp: collect_def AList.delete_eq split: option.splits)

lemma coins_collect_distinct:
  "distinct (map fst (coins db)) \<Longrightarrow> distinct (map fst (coins (collect name cell db)))"
  by (auto simp: collect_def distinct_delete split: option.splits)

lemma scores_collect_keys:
  "name \<in> fst ` set (scores db) \<Longrightarrow> fst ` set (scores (collect name cell db)) = fst ` set (scores db)"
  by (auto simp: collect_def dom_update split: option.splits)

lemma update_numbers:
  "NaN \<notin> snd ` set al \<Longrightarrow> x \<noteq> NaN \<Longrightarrow> NaN \<notin> snd ` set (AList.update k x al)"
  by (induction al) auto

lemma scores_collect_numbers:
  assumes "NaN \<notin> snd ` set (scores db)" and "name \<in> fst ` set (scores db)"
  shows "NaN \<notin> snd ` set (scores (collect name cell db))"
proof -
  from assms(2) obtain x where x: "map_of (scores db) name = Some x"
    by (cases "map_of (scores db) name") (auto simp: map_of_eq_None_iff)
  then have "(name, x) \<in> set (scores db)"
    by (rule map_of_SomeD)
  with assms(1) have "x \<noteq> NaN"
    by force
  then obtain a where "x = Num a"
    by (cases x) auto
  with x have "jsadd (map_of (scores db) name) v \<noteq> NaN" for v
    by simp
  then have "NaN \<notin> snd ` set (AList.update name (jsadd (map_of (scores db) name) v) (scores db))" for v
    using assms(1) by (intro update_numbers)
  with assms(1) show ?thesis
    by (simp add: collect_def split: option.splits)
qed

lemma settled_step:
  assumes "settled db" and "map_of (players db) name = Some pos"
    and "on_board cell \<or> cell = (NaN, NaN)"
  shows "settled (relocate name cell (collect name cell db))"
proof -
  from assms(2) have "(name, pos) \<in> set (players db)"
    by (rule map_of_SomeD)
  then have name: "name \<in> fst ` set (players db)"
    by force
  with assms(1) have "name \<in> fst ` set (scores db)"
    by (simp add: settled_def)
  then have keys: "fst ` set (scores (collect name cell db)) = fst ` set (scores db)"
    by (rule scores_collect_keys)
  have board: "list_all (\<lambda>(n, p). on_board p \<or> p = (NaN, NaN)) (AList.update name cell (players db))"
    using assms(1,3) set_update_subset [of name cell "players db"]
    by (auto simp: settled_def list_all_iff)
  have vals: "set (map snd (coins (collect name cell db))) \<subseteq> {1, 2, 5, 10}"
    using assms(1) coins_collect_subset [of name cell db]
    by (auto simp: settled_def)
  have nums: "NaN \<notin> snd ` set (scores (collect name cell db))"
    using assms(1) \<open>name \<in> fst ` set (scores db)\<close>
    by (intro scores_collect_numbers) (simp_all add: settled_def)
  show ?thesis
    using assms(1) name keys board vals nums
    by (simp add: settled_def coins_collect_distinct dom_update insert_absorb)
qed

section \<open>The invariant\<close>

lemma coinValue_range: "coinValue i \<in> {1, 2, 5, 10}"
  by (simp add: coinValue_def)

lemma fold_update_range:
  "snd ` set al \<subseteq> {1, 2, 5, 10} \<Longrightarrow>
   snd ` set (fold (\<lambda>(i, position). AList.update (index position) (coinValue i)) xs al)
     \<subseteq> {1, 2, 5, 10}"
proof (induction xs arbitrary: al)
  case Nil
  then show ?case by simp
next
  case (Cons x xs)
  obtain i position where x: "x = (i, position)" by (cases x)
  have "snd ` set (AList.update (index position) (coinValue i) al) \<subseteq> {1, 2, 5, 10}"
    using Cons.prems set_update_subset [of "index position" "coinValue i" al] coinValue_range [of i]
    by fastforce
  from Cons.IH [OF this] show ?case by (simp add: x)
qed

lemma settled_placeCoins_game: "settled db \<Longrightarrow> settled (placeCoins_game perm db)"
  using fold_update_range [of "coins db"]
  by (simp add: settled_def placeCoins_game_def fold_update_distinct)

lemma placeCoins_game_nonempty:
  "is_permutation (WIDTH * HEIGHT) perm \<Longrightarrow> coins (placeCoins_game perm db) \<noteq> []"
  by (simp add: coins_placeCoins_game fold_update_nonempty enumerate_take_nonempty)

lemma invariant_placeCoins_game:
  "settled db \<Longrightarrow> is_permutation (WIDTH * HEIGHT) perm \<Longrightarrow> invariant (placeCoins_game perm db)"
  by (simp add: invariant_def settled_placeCoins_game placeCoins_game_nonempty)

lemma settled_empty: "settled empty_database"
  by (simp add: settled_def empty_database_def)

lemma settled_register:
  assumes "settled db" and "on_board pt"
  shows "settled (db\<lparr>usednames := insert name (usednames db),
                       players := AList.update name pt (players db),
                       scores := AList.update name (Num 0) (scores db)\<rparr>)"
proof -
  have "list_all (\<lambda>(n, p). on_board p \<or> p = (NaN, NaN)) (AList.update name pt (players db))"
    using assms set_update_subset [of name pt "players db"]
    by (auto simp: settled_def list_all_iff)
  moreover have "NaN \<notin> snd ` set (AList.update name (Num 0) (scores db))"
    using assms(1) by (intro update_numbers) (simp_all add: settled_def)
  ultimately show ?thesis
    using assms(1) by (simp add: settled_def dom_update)
qed

lemma invariant_addPlayer_game:
  "invariant db \<Longrightarrow> on_board pt \<Longrightarrow> invariant (snd (addPlayer_game name pt db))"
  using settled_register [of db pt name]
  by (simp add: invariant_def addPlayer_game_def)

lemma invariant_addPlayer:
  "invariant (mem s) \<Longrightarrow> on_board p1 \<Longrightarrow> invariant (mem (snd (addPlayer name p1 p2 s)))"
  using settled_register [of "mem s" p1 name]
  by (simp add: invariant_def addPlayer_def)

lemma invariant_step:
  assumes "invariant db" and "map_of (players db) name = Some pos"
    and "is_permutation (WIDTH * HEIGHT) perm" and "delta_of direction = Some delta"
  shows "invariant (let db1 = relocate name (candidate pos delta) (collect name (candidate pos delta) db)
                    in if coins db1 = [] then placeCoins_game perm db1 else db1)"
proof -
  from assms(1) have "settled db"
    by (simp add: invariant_def)
  from assms(2) have "(name, pos) \<in> set (players db)"
    by (rule map_of_SomeD)
  with \<open>settled db\<close> have "on_board pos \<or> pos = (NaN, NaN)"
    by (auto simp: settled_def list_all_iff)
  with assms(4) have "on_board (candidate pos delta) \<or> candidate pos delta = (NaN, NaN)"
    by (rule candidate_placed)
  with \<open>settled db\<close> assms(2)
  have "settled (relocate name (candidate pos delta) (collect name (candidate pos delta) db))"
    by (rule settled_step)
  then show ?thesis
    using assms(3) by (simp add: Let_def invariant_placeCoins_game) (simp add: invariant_def)
qed

lemma mem_move:
  "mem (snd (move direction name perm s)) =
     (case delta_of direction of
        None \<Rightarrow> mem s
      | Some delta \<Rightarrow>
          (case map_of (players (mem s)) name of
             None \<Rightarrow> mem s
           | Some pos \<Rightarrow>
               (let db1 = relocate name (candidate pos delta) (collect name (candidate pos delta) (mem s))
                in if coins db1 = [] then placeCoins_game perm db1 else db1)))"
  by (simp add: move_def Let_def mem_placeCoins split: option.splits)

lemma move_game_alice:
  "move_game direction perm (mem s) =
     (fst (move direction ''alice'' perm s), mem (snd (move direction ''alice'' perm s)))"
  by (simp add: move_def move_game_def Let_def mem_placeCoins split: option.splits)

lemma invariant_move:
  assumes "invariant (mem s)" and "is_permutation (WIDTH * HEIGHT) perm"
  shows "invariant (mem (snd (move direction name perm s)))"
  using assms invariant_step [of "mem s" name _ perm direction]
  by (simp add: mem_move split: option.splits)

lemma invariant_move_game:
  assumes "invariant db" and "is_permutation (WIDTH * HEIGHT) perm"
  shows "invariant (snd (move_game direction perm db))"
  using invariant_move [of "\<lparr>mem = db, redis = empty_redis\<rparr>" perm direction "''alice''"]
    move_game_alice [of direction perm "\<lparr>mem = db, redis = empty_redis\<rparr>"] assms
  by simp

lemma reachable_invariant: "reachable s \<Longrightarrow> invariant (mem s)"
proof (induction rule: reachable.induct)
  case (start perm r0)
  then show ?case
    by (simp add: startup_def mem_placeCoins invariant_placeCoins_game settled_empty)
next
  case (registered s p1 p2 name)
  then show ?case by (simp add: invariant_addPlayer)
next
  case (moved s perm direction name)
  then show ?case by (simp add: invariant_move)
qed

lemma reachable_game_invariant: "reachable_game db \<Longrightarrow> invariant db"
proof (induction rule: reachable_game.induct)
  case (start_game perm pa pb)
  then show ?case
    by (simp add: startup_game_def invariant_addPlayer_game invariant_placeCoins_game settled_empty)
next
  case (registered_game db pt name)
  then show ?case by (simp add: invariant_addPlayer_game)
next
  case (moved_game db perm direction)
  then show ?case by (simp add: invariant_move_game)
qed

lemma reachable_names: "reachable s \<Longrightarrow> usednames (mem s) \<subseteq> r_usednames (redis s)"
proof (induction rule: reachable.induct)
  case (start perm r0)
  then show ?case by (simp add: startup_def placeCoins_def empty_database_def)
next
  case (registered s p1 p2 name)
  then show ?case by (auto simp: addPlayer_def)
next
  case (moved s perm direction name)
  then show ?case
    by (auto simp: move_def Let_def placeCoins_def relocate_def split: option.splits)
qed

text \<open>
  In a reachable state a used name is a registered player: it has a stored position and a
  score that is a number; and no coin of the field is worth 0. These are the hypotheses
  under which a move is described below.
\<close>

lemma invariant_registered:
  assumes "invariant db" and "name \<in> usednames db"
  shows "(\<exists>pos. map_of (players db) name = Some pos) \<and>
         (\<exists>sc. map_of (scores db) name = Some (Num sc)) \<and>
         0 \<notin> snd ` set (coins db)"
proof -
  from assms have p: "name \<in> fst ` set (players db)" and q: "name \<in> fst ` set (scores db)"
    and n: "NaN \<notin> snd ` set (scores db)" and c: "set (map snd (coins db)) \<subseteq> {1, 2, 5, 10}"
    by (simp_all add: invariant_def settled_def)
  from p obtain pos where "map_of (players db) name = Some pos"
    by (cases "map_of (players db) name") (auto simp: map_of_eq_None_iff)
  moreover from q obtain x where x: "map_of (scores db) name = Some x"
    by (cases "map_of (scores db) name") (auto simp: map_of_eq_None_iff)
  then have "(name, x) \<in> set (scores db)"
    by (rule map_of_SomeD)
  with n have "x \<noteq> NaN"
    by force
  then obtain sc where "x = Num sc"
    by (cases x) auto
  moreover from c have "0 \<notin> snd ` set (coins db)"
    by auto
  ultimately show ?thesis
    using x by blast
qed

lemma reachable_registered:
  "reachable s \<Longrightarrow> name \<in> usednames (mem s) \<Longrightarrow>
   (\<exists>pos. map_of (players (mem s)) name = Some pos) \<and>
   (\<exists>sc. map_of (scores (mem s)) name = Some (Num sc)) \<and>
   0 \<notin> snd ` set (coins (mem s))"
  by (rule invariant_registered) (simp_all add: reachable_invariant)

text \<open>
  The in-memory module registers Alice when it starts, and no name is ever removed, so its
  \<^verbatim>\<open>move\<close> always finds the entry \<^verbatim>\<open>player:alice\<close> and never throws.
\<close>

lemma reachable_game_alice: "reachable_game db \<Longrightarrow> ''alice'' \<in> usednames db"
proof (induction rule: reachable_game.induct)
  case (start_game perm pa pb)
  then show ?case
    by (simp add: startup_game_def addPlayer_game_def placeCoins_game_def empty_database_def)
next
  case (registered_game db pt name)
  then show ?case
    by (simp add: addPlayer_game_def)
next
  case (moved_game db perm direction)
  then show ?case
    by (simp add: move_game_def Let_def placeCoins_game_def split: option.splits)
qed

lemma move_game_returns:
  assumes "reachable_game db"
  shows "fst (move_game direction perm db) = None"
proof -
  from invariant_registered [OF reachable_game_invariant [OF assms] reachable_game_alice [OF assms]]
  obtain pos where "map_of (players db) ''alice'' = Some pos"
    by blast
  then show ?thesis
    by (simp add: move_game_def Let_def split: option.splits)
qed

section \<open>Example states are reachable\<close>

lemma identity_permutation: "is_permutation (WIDTH * HEIGHT) [0..<4096]"
  by (simp add: is_permutation_def WIDTH_def HEIGHT_def)

lemma reachable_one_player: "reachable one_player_server"
  unfolding one_player_server_def
  by (intro reachable.registered reachable.start identity_permutation)
    (simp_all add: WIDTH_def HEIGHT_def)

lemma reachable_game_startup: "reachable_game (startup_game [0..<4096] (Num 3, Num 4) (Num 5, Num 6))"
  by (intro reachable_game.start_game identity_permutation)
    (simp_all add: WIDTH_def HEIGHT_def)


section \<open>The claims\<close>

subsection \<open>A move: candidate cell, collection, new position\<close>


lemma candidate_example: "candidate (Num 11, Num 10) (Num (-1), Num 0) = (Num 10, Num 10)"
  by (simp add: candidate_def WIDTH_def HEIGHT_def)


subsection \<open>Coin placement\<close>

text \<open>
  Claim C2. \<^verbatim>\<open>placeCoins\<close> is private to its module and is called at two places: when the
  module starts, on the empty database, and in \<^verbatim>\<open>move\<close>, under the guard
  \<^verbatim>\<open>Object.keys(database.coins).length === 0\<close>. So every call finds an empty coin field.
  After such a call, with a permutation of the \<open>64 * 64\<close> cell indices, the field holds
  exactly 100 coins, their values are 50 times 1, 25 times 2, 20 times 5 and 5 times 10, and
  the coin of rank \<open>i\<close> lies at the index of entry \<open>i\<close> of the permutation with the value
  of its rank. This holds in both modules.
\<close>

theorem placeCoins_full_batch:
  assumes "is_permutation (WIDTH * HEIGHT) perm"
    and "coins (mem s) = []"
    and "coins db = []"
  shows "(length (coins (mem (placeCoins perm s))) = 100 \<and>
          mset (map snd (coins (mem (placeCoins perm s)))) = batch_values \<and>
          coins (mem (placeCoins perm s)) = map (\<lambda>i. (index (perm ! i), coinValue i)) [0..<100]) \<and>
         (length (coins (placeCoins_game perm db)) = 100 \<and>
          mset (map snd (coins (placeCoins_game perm db))) = batch_values \<and>
          coins (placeCoins_game perm db) = map (\<lambda>i. (index (perm ! i), coinValue i)) [0..<100])"
proof -
  have game: "coins (placeCoins_game perm d) = batch NUM_COINS perm" if "coins d = []" for d
    using assms(1) that by (rule placeCoins_game_empty)
  show ?thesis
    using full_batch(1,2) [OF assms(1)] full_batch(3) [OF assms(1), symmetric] assms(2,3)
    by (simp add: mem_placeCoins game)
qed

theorem placeCoins_full_batch_witness:
  "is_permutation (WIDTH * HEIGHT) [0..<4096] \<and>
   coins empty_database = [] \<and>
   length (coins (mem (startup [0..<4096] empty_redis))) = 100 \<and>
   mset (map snd (coins (mem (startup [0..<4096] empty_redis)))) = batch_values \<and>
   length (coins (placeCoins_game [0..<4096] empty_database)) = 100 \<and>
   mset (map snd (coins (placeCoins_game [0..<4096] empty_database))) = batch_values"
proof -
  have empty: "coins empty_database = []"
    by (simp add: empty_database_def)
  have "coins (mem \<lparr>mem = empty_database, redis = empty_redis\<rparr>) = []"
    by (simp add: empty)
  from placeCoins_full_batch [OF identity_permutation this empty] identity_permutation empty
  show ?thesis
    unfolding startup_def by blast
qed

subsection \<open>Registration and the length of the name\<close>

text \<open>
  Claim C3. The claim is that \<^verbatim>\<open>addPlayer\<close> rejects a name exactly when its length is 0
  or above 32. The guard of the code, \<^verbatim>\<open>name.length !== 0 || name.length <=
  MAX_PLAYER_NAME_LENGTH\<close>, holds for every name, so the branch that emits \<^verbatim>\<open>badname\<close>
  for the length is never taken: the reply depends on \<^verbatim>\<open>sismember\<close> alone, and a name
  that is not in the Redis set is registered whatever its length.
\<close>

theorem addPlayer_ignores_length:
  "fst (addPlayer name p1 p2 s) = (if name \<in> r_usednames (redis s) then Badname name else Welcome) \<and>
   (name \<in> usednames (mem (snd (addPlayer name p1 p2 s))) \<or> name \<in> r_usednames (redis s))"
  by (simp add: addPlayer_def MAX_PLAYER_NAME_LENGTH_def)

theorem addPlayer_ignores_length_witness:
  "length ([] :: string) = 0 \<and>
   fst (addPlayer [] (Num 1, Num 2) (Num 7, Num 8) example_server) = Welcome \<and>
   [] \<in> usednames (mem (snd (addPlayer [] (Num 1, Num 2) (Num 7, Num 8) example_server))) \<and>
   length (replicate 33 CHR ''a'') = 33 \<and>
   fst (addPlayer (replicate 33 CHR ''a'') (Num 1, Num 2) (Num 7, Num 8) example_server) = Welcome \<and>
   replicate 33 CHR ''a'' \<in> usednames (mem (snd (addPlayer (replicate 33 CHR ''a'') (Num 1, Num 2) (Num 7, Num 8) example_server)))"
proof -
  have a: "[] \<notin> r_usednames (redis example_server)"
    by (simp add: example_server_def example_redis_def)
  have b: "replicate 33 CHR ''a'' \<notin> r_usednames (redis example_server)"
    by (auto simp: example_server_def example_redis_def dest: arg_cong [where f = length])
  from addPlayer_ignores_length [of "[]" "(Num 1, Num 2)" "(Num 7, Num 8)" example_server]
    addPlayer_ignores_length [of "replicate 33 CHR ''a''" "(Num 1, Num 2)" "(Num 7, Num 8)" example_server] a b
  show ?thesis
    by simp
qed

subsection \<open>The player a move acts on\<close>

text \<open>
  Claim C4. The claim is that \<^verbatim>\<open>move\<close> acts on the player who asked for it, never on a
  fixed one. The \<^verbatim>\<open>move(direction)\<close> of \<^verbatim>\<open>game.js\<close> takes no name and uses the key
  \<^verbatim>\<open>'player:alice'\<close> (under the comment ``TODO: This has to be an actual player''): for
  every other player, whoever sent the command, the stored position and the score are left
  as they were. In the example Bob stands right of a coin and sends \<^verbatim>\<open>L\<close>; Alice moves
  left, Bob stays, the coin stays.
\<close>

theorem move_game_ignores_caller:
  assumes "name \<noteq> ''alice''"
  shows "map_of (players (snd (move_game direction perm db))) name = map_of (players db) name \<and>
         map_of (scores (snd (move_game direction perm db))) name = map_of (scores db) name"
proof -
  have a: "map_of (players (relocate ''alice'' cell (collect ''alice'' cell db))) name =
      map_of (players db) name" for cell
    using assms by (simp add: update_conv')
  have b: "map_of (scores (relocate ''alice'' cell (collect ''alice'' cell db))) name =
      map_of (scores db) name" for cell
    using assms by (simp add: collect_def update_conv' split: option.splits)
  have c: "players (placeCoins_game perm d) = players d" "scores (placeCoins_game perm d) = scores d" for d
    by (simp_all add: placeCoins_game_def)
  show ?thesis
    using a b by (simp add: move_game_def Let_def c split: option.splits)
qed

theorem move_game_ignores_caller_witness:
  "''bob'' \<noteq> ''alice'' \<and>
   map_of (players bob_next_to_coin) ''bob'' = Some (Num 11, Num 10) \<and>
   map_of (coins bob_next_to_coin) (Num 10, Num 10) = Some 5 \<and>
   map_of (players (snd (move_game ''L'' [0..<4096] bob_next_to_coin))) ''bob'' = Some (Num 11, Num 10) \<and>
   map_of (scores (snd (move_game ''L'' [0..<4096] bob_next_to_coin))) ''bob'' = Some (Num 0) \<and>
   move_game ''L'' [0..<4096] bob_next_to_coin =
     (None, bob_next_to_coin\<lparr>players := [(''alice'', (Num 19, Num 20)), (''bob'', (Num 11, Num 10))]\<rparr>)"
proof -
  have h: "''bob'' \<noteq> ''alice''"
    by simp
  have c: "candidate (Num 20, Num 20) (Num (-1), Num 0) = (Num 19, Num 20)"
    by (simp add: candidate_def WIDTH_def HEIGHT_def)
  have m: "move_game ''L'' [0..<4096] bob_next_to_coin =
     (None, bob_next_to_coin\<lparr>players := [(''alice'', (Num 19, Num 20)), (''bob'', (Num 11, Num 10))]\<rparr>)"
    by (simp add: move_game_def delta_of_def bob_next_to_coin_def c collect_def relocate_def)
  from move_game_ignores_caller [OF h, of "''L''" "[0..<4096]" bob_next_to_coin] m
  show ?thesis
    by (simp add: bob_next_to_coin_def)
qed

subsection \<open>The order of the scores in a snapshot\<close>

lemma score_compare_nonneg: "\<not> score_compare a b < 0"
  by (simp add: score_compare_def)

lemma binary_search_right:
  "(\<And>a b. \<not> comparefn a b < 0) \<Longrightarrow> left \<le> right \<Longrightarrow>
   binary_search comparefn pivot xs left right = right"
proof (induction comparefn pivot xs left right rule: binary_search.induct)
  case (1 comparefn pivot xs left right)
  show ?case
  proof (cases "left < right")
    case True
    then have "left + (right - left) div 2 + 1 \<le> right"
      by linarith
    with "1.IH"(2) [OF True] "1.prems"(1) True show ?thesis
      by (subst binary_search.simps) simp
  next
    case False
    with "1.prems"(2) show ?thesis
      by (subst binary_search.simps) simp
  qed
qed

lemma insert_each_append:
  "(\<And>a b. \<not> comparefn a b < 0) \<Longrightarrow> insert_each comparefn placed rest = placed @ rest"
  by (induction rest arbitrary: placed) (simp_all add: binary_search_right)

text \<open>
  Claim C5. The claim is that the scores of a snapshot are in descending order of score,
  equal scores in the order of registration. The comparison function of \<^verbatim>\<open>state\<close>,
  \<^verbatim>\<open>v1 < v2\<close>, is never negative, so the insertion sort never moves an element to the
  left: the scores of the snapshot are the entries of \<^verbatim>\<open>database.scores\<close> in the order
  they were inserted, sorted or not. In the example Alice, who registered first, has 100
  points and Bob has 144, and the snapshot lists Alice first.
\<close>

theorem state_scores_unsorted:
  "snap_scores (state s) = scores (mem s) \<and> snap_scores (state_game db) = scores db"
  by (simp add: state_def state_game_def js_sort_def insert_each_append score_compare_nonneg)

theorem state_scores_unsorted_witness:
  "scores (mem example_server) = [(''alice'', Num 100), (''bob'', Num 144)] \<and>
   snap_scores (state example_server) = [(''alice'', Num 100), (''bob'', Num 144)] \<and>
   snap_scores (state_game (mem example_server)) = [(''alice'', Num 100), (''bob'', Num 144)] \<and>
   jsless (Num 100) (Num 144)"
  using state_scores_unsorted [of example_server "mem example_server"]
  by (simp add: example_server_def example_database_def)

subsection \<open>Positions stay on the board\<close>

lemma delta_of_inherited: "direction \<in> set inherited_names \<Longrightarrow> delta_of direction = Some (NaN, NaN)"
  by (auto simp: delta_of_def inherited_names_def)

text \<open>
  What holds of the claim: for a player on the board and one of the directions U, D, L, R
  the position stored by \<^verbatim>\<open>move\<close> is on the board; each coordinate is the old one plus
  the delta where that is within \<open>[0, 63]\<close>, and the old one where it is not.
\<close>

lemma valid_move_stays_on_board:
  assumes "delta_of direction = Some (Num dx, Num dy)"
    and "map_of (players (mem s)) name = Some (Num x, Num y)"
    and "on_board (Num x, Num y)"
  shows "fst (move direction name perm s) = None \<and>
         map_of (players (mem (snd (move direction name perm s)))) name =
           Some (Num (if 0 \<le> x + dx \<and> x + dx \<le> 63 then x + dx else x),
                 Num (if 0 \<le> y + dy \<and> y + dy \<le> 63 then y + dy else y)) \<and>
         on_board (candidate (Num x, Num y) (Num dx, Num dy))"
proof -
  let ?cell = "candidate (Num x, Num y) (Num dx, Num dy)"
  let ?db1 = "relocate name ?cell (collect name ?cell (mem s))"
  have "mem (snd (move direction name perm s)) =
             (if coins ?db1 = [] then placeCoins_game perm ?db1 else ?db1)"
    using assms(1,2) by (simp add: mem_move Let_def)
  moreover have "players (placeCoins_game perm ?db1) = players ?db1"
    by (simp add: placeCoins_game_def)
  ultimately have "players (mem (snd (move direction name perm s))) =
      AList.update name ?cell (players (mem s))"
    by simp
  then have a: "map_of (players (mem (snd (move direction name perm s)))) name = Some ?cell"
    by (simp add: update_conv')
  have r: "fst (move direction name perm s) = None"
    using assms(1,2) by (simp add: move_def Let_def)
  have b: "?cell = (Num (if 0 \<le> x + dx \<and> x + dx \<le> 63 then x + dx else x),
                 Num (if 0 \<le> y + dy \<and> y + dy \<le> 63 then y + dy else y))"
    using delta_of_cases [OF assms(1)] assms(3)
    by (auto simp: candidate_def WIDTH_def HEIGHT_def)
  from r a b on_board_candidate [of x y dx dy] show ?thesis
    by simp
qed

text \<open>
  Claim C6. The claim is that after a move the position is within \<open>[0, 63]\<close> on both axes
  and that every operation keeps every stored position on the board. That holds for the
  directions U, D, L, R (lemma \<open>valid_move_stays_on_board\<close>). It fails for a direction that
  is a property name inherited from \<^verbatim>\<open>Object.prototype\<close>, such as \<^verbatim>\<open>constructor\<close>:
  the guard \<^verbatim>\<open>if (delta)\<close>, which is there to skip unknown directions, lets it through,
  and \<^verbatim>\<open>move\<close> returns normally with the position \<^verbatim>\<open>"NaN,NaN"\<close> stored for the
  player, which is not on the board. The same happens in \<^verbatim>\<open>game.js\<close> to its player.
\<close>

theorem move_inherited_direction_leaves_board:
  assumes "direction \<in> set inherited_names"
    and "map_of (players (mem s)) name = Some pos"
  shows "fst (move direction name perm s) = None \<and>
         map_of (players (mem (snd (move direction name perm s)))) name = Some (NaN, NaN) \<and>
         (name = ''alice'' \<longrightarrow>
            map_of (players (snd (move_game direction perm (mem s)))) ''alice'' = Some (NaN, NaN)) \<and>
         on_board (NaN, NaN) = False"
proof -
  have d: "delta_of direction = Some (NaN, NaN)"
    using assms(1) by (rule delta_of_inherited)
  let ?db1 = "relocate name (NaN, NaN) (collect name (NaN, NaN) (mem s))"
  have "mem (snd (move direction name perm s)) =
             (if coins ?db1 = [] then placeCoins_game perm ?db1 else ?db1)"
    using d assms(2) by (simp add: mem_move Let_def candidate_nan_delta)
  moreover have "players (placeCoins_game perm ?db1) = players ?db1"
    by (simp add: placeCoins_game_def)
  ultimately have "players (mem (snd (move direction name perm s))) =
      AList.update name (NaN, NaN) (players (mem s))"
    by simp
  then have a: "map_of (players (mem (snd (move direction name perm s)))) name = Some (NaN, NaN)"
    by (simp add: update_conv')
  have r: "fst (move direction name perm s) = None"
    using d assms(2) by (simp add: move_def Let_def)
  from a have g: "map_of (players (snd (move_game direction perm (mem s)))) ''alice'' = Some (NaN, NaN)"
    if "name = ''alice''"
    using that by (simp add: move_game_alice)
  from r a g show ?thesis
    by simp
qed

lemma players_one_player: "players (mem one_player_server) = [(''alice'', (Num 3, Num 4))]"
  by (simp add: one_player_server_def addPlayer_def startup_def placeCoins_def empty_database_def
      empty_redis_def MAX_PLAYER_NAME_LENGTH_def)

lemma players_startup_game:
  "players (startup_game perm pa pb) = [(''alice'', pa), (''bob'', pb)]"
  by (simp add: startup_game_def addPlayer_game_def placeCoins_game_def empty_database_def)

theorem move_inherited_direction_leaves_board_witness:
  "''constructor'' \<in> set inherited_names \<and>
   reachable one_player_server \<and>
   map_of (players (mem one_player_server)) ''alice'' = Some (Num 3, Num 4) \<and>
   on_board (Num 3, Num 4) \<and>
   fst (move ''constructor'' ''alice'' [0..<4096] one_player_server) = None \<and>
   reachable (snd (move ''constructor'' ''alice'' [0..<4096] one_player_server)) \<and>
   map_of (players (mem (snd (move ''constructor'' ''alice'' [0..<4096] one_player_server)))) ''alice'' =
     Some (NaN, NaN) \<and>
   on_board (NaN, NaN) = False \<and>
   reachable_game (startup_game [0..<4096] (Num 3, Num 4) (Num 5, Num 6)) \<and>
   map_of (players (snd (move_game ''constructor'' [0..<4096]
     (startup_game [0..<4096] (Num 3, Num 4) (Num 5, Num 6))))) ''alice'' = Some (NaN, NaN)"
proof -
  have h1: "''constructor'' \<in> set inherited_names"
    by (simp add: inherited_names_def)
  have h2: "map_of (players (mem one_player_server)) ''alice'' = Some (Num 3, Num 4)"
    by (simp add: players_one_player)
  have h3: "on_board (Num 3, Num 4)"
    by (simp add: WIDTH_def HEIGHT_def)
  have r: "reachable (snd (move ''constructor'' ''alice'' [0..<4096] one_player_server))"
    by (intro reachable.moved reachable_one_player identity_permutation)
  have g: "map_of (players (mem \<lparr>mem = startup_game [0..<4096] (Num 3, Num 4) (Num 5, Num 6),
      redis = empty_redis\<rparr>)) ''alice'' = Some (Num 3, Num 4)"
    by (simp add: players_startup_game)
  from move_inherited_direction_leaves_board [OF h1 h2, of "[0..<4096]"]
    move_inherited_direction_leaves_board [OF h1 g, of "[0..<4096]"]
    h1 h2 h3 r reachable_one_player reachable_game_startup
  show ?thesis
    by simp
qed

subsection \<open>The last coin\<close>

text \<open>
  Claim C7. When the coin a move collects is the only coin of the field, the same call of
  \<^verbatim>\<open>move\<close> credits it and writes a new batch: the state the call returns, and so the
  next snapshot, holds exactly 100 coins with the values of a full batch. The same holds
  for the \<^verbatim>\<open>move\<close> of \<^verbatim>\<open>game.js\<close> and its player. In every reachable state of either
  module, that is after the start and after any number of registrations and moves, the
  coin field is not empty.
\<close>

theorem last_coin_repopulates:
  assumes "is_permutation (WIDTH * HEIGHT) perm"
    and "delta_of direction = Some delta"
    and "map_of (players (mem s)) name = Some pos"
    and "coins (mem s) = [(candidate pos delta, v)]"
    and "v \<noteq> 0"
    and "reachable t"
    and "reachable_game db"
  shows "fst (move direction name perm s) = None \<and>
         length (coins (mem (snd (move direction name perm s)))) = 100 \<and>
         mset (map snd (coins (mem (snd (move direction name perm s))))) = batch_values \<and>
         length (snap_coins (state (snd (move direction name perm s)))) = 100 \<and>
         map_of (scores (mem (snd (move direction name perm s)))) name =
           Some (jsadd (map_of (scores (mem s)) name) v) \<and>
         (name = ''alice'' \<longrightarrow>
            length (coins (snd (move_game direction perm (mem s)))) = 100 \<and>
            mset (map snd (coins (snd (move_game direction perm (mem s))))) = batch_values) \<and>
         coins (mem t) \<noteq> [] \<and>
         coins db \<noteq> []"
proof -
  let ?cell = "candidate pos delta"
  let ?db1 = "relocate name ?cell (collect name ?cell (mem s))"
  have c1: "coins ?db1 = []"
    using assms(4,5) by (simp add: collect_def)
  have s1: "scores (collect name ?cell (mem s)) =
      AList.update name (jsadd (map_of (scores (mem s)) name) v) (scores (mem s))"
    using assms(4,5) by (simp add: collect_def)
  have m: "mem (snd (move direction name perm s)) = placeCoins_game perm ?db1"
    using assms(2,3) c1 by (simp add: mem_move Let_def)
  have r: "fst (move direction name perm s) = None"
    using assms(2,3) by (simp add: move_def Let_def)
  have b: "coins (placeCoins_game perm ?db1) = batch NUM_COINS perm"
    using assms(1) c1 by (rule placeCoins_game_empty)
  have sc: "scores (placeCoins_game perm ?db1) = scores ?db1"
    by (simp add: placeCoins_game_def)
  have part: "length (coins (mem (snd (move direction name perm s)))) = 100"
    "mset (map snd (coins (mem (snd (move direction name perm s))))) = batch_values"
    using full_batch(1,2) [OF assms(1)] by (simp_all only: m b)
  have snap: "length (snap_coins (state (snd (move direction name perm s)))) = 100"
    using part(1) by (simp add: state_def)
  have credit: "map_of (scores (mem (snd (move direction name perm s)))) name =
           Some (jsadd (map_of (scores (mem s)) name) v)"
    by (simp add: m sc s1 update_conv')
  have game: "length (coins (snd (move_game direction perm (mem s)))) = 100 \<and>
      mset (map snd (coins (snd (move_game direction perm (mem s))))) = batch_values"
    if "name = ''alice''"
    using part that by (simp add: move_game_alice)
  have t: "coins (mem t) \<noteq> []"
    using reachable_invariant [OF assms(6)] by (simp add: invariant_def)
  have d: "coins db \<noteq> []"
    using reachable_game_invariant [OF assms(7)] by (simp add: invariant_def)
  from r part snap credit game t d show ?thesis
    by blast
qed

lemma last_coin_facts:
  "map_of (players (mem last_coin_server)) ''alice'' = Some (Num 11, Num 10)"
  "coins (mem last_coin_server) = [((Num 10, Num 10), 5)]"
  "map_of (scores (mem last_coin_server)) ''alice'' = Some (Num 100)"
  by (simp_all add: last_coin_server_def)

theorem last_coin_repopulates_witness:
  "is_permutation (WIDTH * HEIGHT) [0..<4096] \<and>
   delta_of ''L'' = Some (Num (-1), Num 0) \<and>
   map_of (players (mem last_coin_server)) ''alice'' = Some (Num 11, Num 10) \<and>
   coins (mem last_coin_server) = [(candidate (Num 11, Num 10) (Num (-1), Num 0), 5)] \<and>
   (5 :: int) \<noteq> 0 \<and>
   length (coins (mem (snd (move ''L'' ''alice'' [0..<4096] last_coin_server)))) = 100 \<and>
   mset (map snd (coins (mem (snd (move ''L'' ''alice'' [0..<4096] last_coin_server))))) = batch_values \<and>
   length (snap_coins (state (snd (move ''L'' ''alice'' [0..<4096] last_coin_server)))) = 100 \<and>
   map_of (scores (mem (snd (move ''L'' ''alice'' [0..<4096] last_coin_server)))) ''alice'' = Some (Num 105) \<and>
   length (coins (snd (move_game ''L'' [0..<4096] (mem last_coin_server)))) = 100 \<and>
   coins (mem one_player_server) \<noteq> [] \<and>
   coins (startup_game [0..<4096] (Num 3, Num 4) (Num 5, Num 6)) \<noteq> []"
proof -
  have h2: "delta_of ''L'' = Some (Num (-1), Num 0)"
    by (simp add: delta_of_def)
  have h4: "coins (mem last_coin_server) = [(candidate (Num 11, Num 10) (Num (-1), Num 0), 5)]"
    by (simp add: last_coin_facts candidate_example)
  have h5: "(5 :: int) \<noteq> 0"
    by simp
  note t = last_coin_repopulates [OF identity_permutation h2 last_coin_facts(1) h4 h5
      reachable_one_player reachable_game_startup]
  from t identity_permutation h2 last_coin_facts(1) h4 h5 show ?thesis
    by (simp add: last_coin_facts)
qed

subsection \<open>One coin per cell\<close>

text \<open>
  Claim C8. A repopulation, that is a call of \<^verbatim>\<open>placeCoins\<close> on the empty field, writes
  one coin for each of the first 100 entries of the permutation, at the index of the entry;
  these 100 indices \<open>(row, col)\<close> are pairwise distinct, so the batch lies on 100 distinct
  cells. The collection of a move changes the coin field by at most the removal of the coin
  at one cell. In every reachable state of either module no two coins of the field have
  the same cell.
\<close>

theorem coins_on_distinct_cells:
  assumes "is_permutation (WIDTH * HEIGHT) perm"
    and "coins (mem s) = []"
    and "coins db = []"
    and "reachable t"
    and "reachable_game d"
  shows "map fst (coins (mem (placeCoins perm s))) = map index (take NUM_COINS perm) \<and>
         map fst (coins (placeCoins_game perm db)) = map index (take 100 perm) \<and>
         length (coins (mem (placeCoins perm s))) = 100 \<and>
         length (coins (placeCoins_game perm db)) = 100 \<and>
         distinct (map index (take NUM_COINS perm)) \<and>
         distinct (map fst (coins (mem (placeCoins perm s)))) \<and>
         distinct (map fst (coins (placeCoins_game perm db))) \<and>
         (coins (collect name cell e) = coins e \<or>
          coins (collect name cell e) = AList.delete cell (coins e)) \<and>
         distinct (map fst (coins (mem t))) \<and>
         distinct (map fst (coins d))"
proof -
  from assms(1) have dist: "distinct perm"
    by (auto dest!: permutationD)
  have game: "coins (placeCoins_game perm x) = batch NUM_COINS perm" if "coins x = []" for x
    using assms(1) that by (rule placeCoins_game_empty)
  have keys: "map fst (batch NUM_COINS perm) = map index (take NUM_COINS perm)"
    by (rule map_fst_batch)
  have len: "length (batch NUM_COINS perm) = 100"
    using assms(1) by (rule full_batch(1))
  from dist have b: "distinct (map index (take NUM_COINS perm))"
    by (simp add: distinct_map inj_on_def inj_index)
  have c: "coins (collect name cell e) = coins e \<or>
      coins (collect name cell e) = AList.delete cell (coins e)"
    by (simp add: collect_def split: option.splits)
  have t: "distinct (map fst (coins (mem t)))"
    using reachable_invariant [OF assms(4)] by (simp add: invariant_def settled_def)
  have d: "distinct (map fst (coins d))"
    using reachable_game_invariant [OF assms(5)] by (simp add: invariant_def settled_def)
  have n: "take 100 perm = take NUM_COINS perm"
    by (simp add: NUM_COINS_def)
  from b c t d len show ?thesis
    by (simp add: mem_placeCoins game [OF assms(2)] game [OF assms(3)] keys n)
qed

lemma coins_one_player: "coins (mem one_player_server) = batch NUM_COINS [0..<4096]"
proof -
  have "coins (mem (startup [0..<4096] empty_redis)) = batch NUM_COINS [0..<4096]"
    using placeCoins_game_empty [OF identity_permutation, of empty_database]
    by (simp add: startup_def mem_placeCoins empty_database_def)
  then show ?thesis
    by (simp add: one_player_server_def addPlayer_def)
qed

theorem coins_on_distinct_cells_witness:
  "is_permutation (WIDTH * HEIGHT) [0..<4096] \<and>
   coins empty_database = [] \<and>
   map fst (coins (mem (startup [0..<4096] empty_redis))) = map index (take NUM_COINS [0..<4096]) \<and>
   map fst (coins (placeCoins_game [0..<4096] empty_database)) = map index (take 100 [0..<4096]) \<and>
   length (coins (mem (startup [0..<4096] empty_redis))) = 100 \<and>
   length (coins (placeCoins_game [0..<4096] empty_database)) = 100 \<and>
   distinct (map fst (coins (mem (startup [0..<4096] empty_redis)))) \<and>
   distinct (map fst (coins (placeCoins_game [0..<4096] empty_database))) \<and>
   length (coins (mem one_player_server)) = 100 \<and>
   distinct (map fst (coins (mem one_player_server))) \<and>
   distinct (map fst (coins (startup_game [0..<4096] (Num 3, Num 4) (Num 5, Num 6))))"
proof -
  have empty: "coins empty_database = []"
    by (simp add: empty_database_def)
  have empty': "coins (mem \<lparr>mem = empty_database, redis = empty_redis\<rparr>) = []"
    by (simp add: empty)
  note t = coins_on_distinct_cells [OF identity_permutation empty' empty reachable_one_player
      reachable_game_startup]
  have "length (coins (mem one_player_server)) = 100"
    using full_batch(1) [OF identity_permutation] by (simp add: coins_one_player)
  with t identity_permutation empty show ?thesis
    unfolding startup_def by blast
qed

subsection \<open>A move for a name without a position\<close>

text \<open>
  Claim C9, as stated: \<^verbatim>\<open>move\<close> for a name that is not registered returns normally and
  raises no exception. It does not hold: Carol is not registered, and \<^verbatim>\<open>move('U',
  'carol')\<close> throws.
\<close>

theorem move_unknown_player_throws:
  "map_of (players (mem example_server)) ''carol'' = None \<and>
   fst (move ''U'' ''carol'' [0..<4096] example_server) \<noteq> None"
  by (simp add: move_def delta_of_def example_server_def example_database_def)

text \<open>
  Claim C9, amended. The module has no result for an unknown player. For a name without a
  stored position, \<^verbatim>\<open>move\<close> throws a \<^verbatim>\<open>TypeError\<close> where it reads the position,
  before it has changed anything, whenever the lookup of the direction gives a value: for
  the directions U, D, L, R (and for the inherited property names). For a direction that
  is no property of the direction table, own or inherited, it returns normally. In every
  case the whole state is as it was.
\<close>

theorem move_without_position:
  assumes "map_of (players (mem s)) name = None"
  shows "move direction name perm s =
           (if delta_of direction = None then (None, s) else (Some TypeError, s)) \<and>
         (delta_of direction = None) =
           (direction \<notin> set [''U'', ''R'', ''D'', ''L''] \<and> direction \<notin> set inherited_names)"
  using assms by (auto simp: move_def delta_of_def split: option.splits)

theorem move_without_position_witness:
  "map_of (players (mem example_server)) ''carol'' = None \<and>
   move ''U'' ''carol'' [0..<4096] example_server = (Some TypeError, example_server) \<and>
   move ''constructor'' ''carol'' [0..<4096] example_server = (Some TypeError, example_server) \<and>
   move ''up'' ''carol'' [0..<4096] example_server = (None, example_server)"
proof -
  have h: "map_of (players (mem example_server)) ''carol'' = None"
    by (simp add: example_server_def example_database_def)
  from move_without_position [OF h, of "''U''" "[0..<4096]"]
    move_without_position [OF h, of "''constructor''" "[0..<4096]"]
    move_without_position [OF h, of "''up''" "[0..<4096]"] h
  show ?thesis
    by (simp add: delta_of_def inherited_names_def)
qed

subsection \<open>Registration of a name already taken\<close>

text \<open>
  Claim C10. \<^verbatim>\<open>addPlayer\<close> with a name of the used-name set rejects the name and leaves
  the whole state as it was: in \<^verbatim>\<open>game.js\<close> it returns \<^verbatim>\<open>false\<close> for a name in
  \<^verbatim>\<open>database.usednames\<close>; in the Redis-backed module it emits \<^verbatim>\<open>badname\<close> for a name
  in the Redis set \<^verbatim>\<open>usednames\<close>, which in every reachable state holds every name of
  \<^verbatim>\<open>database.usednames\<close>.
\<close>

theorem addPlayer_taken_name_unchanged:
  assumes "name \<in> usednames db"
    and "name \<in> r_usednames (redis s)"
    and "reachable t"
    and "name \<in> usednames (mem t)"
  shows "addPlayer_game name pt db = (False, db) \<and>
         addPlayer name p1 p2 s = (Badname name, s) \<and>
         addPlayer name p1 p2 t = (Badname name, t)"
proof -
  from reachable_names [OF assms(3)] assms(4) have "name \<in> r_usednames (redis t)"
    by blast
  with assms(1,2) show ?thesis
    by (simp add: addPlayer_game_def addPlayer_def MAX_PLAYER_NAME_LENGTH_def)
qed

theorem addPlayer_taken_name_unchanged_witness:
  "''alice'' \<in> usednames (mem example_server) \<and>
   ''alice'' \<in> r_usednames (redis example_server) \<and>
   ''alice'' \<in> usednames (mem one_player_server) \<and>
   addPlayer_game ''alice'' (Num 1, Num 2) (mem example_server) = (False, mem example_server) \<and>
   addPlayer ''alice'' (Num 1, Num 2) (Num 7, Num 8) example_server = (Badname ''alice'', example_server) \<and>
   addPlayer ''alice'' (Num 1, Num 2) (Num 7, Num 8) one_player_server = (Badname ''alice'', one_player_server)"
proof -
  have h1: "''alice'' \<in> usednames (mem example_server)"
    by (simp add: example_server_def example_database_def)
  have h2: "''alice'' \<in> r_usednames (redis example_server)"
    by (simp add: example_server_def example_redis_def)
  have h4: "''alice'' \<in> usednames (mem one_player_server)"
    by (simp add: one_player_server_def addPlayer_def startup_def placeCoins_def empty_redis_def
        MAX_PLAYER_NAME_LENGTH_def)
  from addPlayer_taken_name_unchanged [OF h1 h2 reachable_one_player h4] h1 h2 h4
  show ?thesis
    by blast
qed

end
